theory Spec2Isabelle
  imports Complex_Main
begin

section \<open>Seatify: sun exposure along a route and per-seat allocation\<close>

text \<open>
  A shallow embedding of \<^verbatim>\<open>backend/main.py\<close>. An exception raised by the source is
  a value \<open>Inl e\<close>. Timestamps (\<^verbatim>\<open>datetime\<close>) are real numbers of seconds and
  \<^verbatim>\<open>timedelta(seconds=s)\<close> is the real \<open>s\<close>.

  A Python float is a real number. The three operations of \<^verbatim>\<open>normalize\<close>, and the
  same two that wrap the bearing, are rounded as IEEE-754 binary64 rounds them (to the
  nearest double, a tie going to the even significand), because the rounding decides which
  ends of the interval \<^verbatim>\<open>normalize\<close> reaches. The exponent range is not bounded in the
  model; on a finite double these operations neither overflow nor produce a subnormal
  result, so the model computes what the hardware computes. Everywhere else (the
  trigonometry of the distance and the bearing, the accumulation of minutes, the seat
  weights) arithmetic is exact: what is proved there is about which branch is taken and
  about values on which the exact and the rounded computation agree, and no statement is
  made on the size of a rounding error.
\<close>

datatype py_error = ValueError | ZeroDivisionError | RequestError

definition bind_err :: "py_error + 'a \<Rightarrow> ('a \<Rightarrow> py_error + 'b) \<Rightarrow> py_error + 'b" where
  "bind_err m f = (case m of Inl e \<Rightarrow> Inl e | Inr x \<Rightarrow> f x)"

subsection \<open>Library functions used by the source\<close>

text \<open>Rounding to the nearest integer, a tie going to the even one.\<close>

definition round_half_even :: "real \<Rightarrow> int" where
  "round_half_even y =
     (let f = \<lfloor>y\<rfloor>; r = y - of_int f
      in if r < 1 / 2 then f
         else if r > 1 / 2 then f + 1
         else if even f then f else f + 1)"

text \<open>
  IEEE-754 binary64. A double is \<open>m * 2 ^ e\<close> with \<open>\<bar>m\<bar> < 2 ^ 53\<close>. \<open>fl x\<close> is the double
  nearest to \<open>x\<close>: \<open>x\<close> is scaled by the spacing of the doubles of its binade, rounded
  to an integer, and scaled back.
\<close>

definition pow2 :: "int \<Rightarrow> real" where
  "pow2 e = 2 powr of_int e"

definition binade :: "real \<Rightarrow> int" where
  "binade x = \<lfloor>log 2 \<bar>x\<bar>\<rfloor>"

definition quantum :: "real \<Rightarrow> real" where
  "quantum x = pow2 (binade x - 52)"

definition fl :: "real \<Rightarrow> real" where
  "fl x = (if x = 0 then 0 else of_int (round_half_even (x / quantum x)) * quantum x)"

definition is_double :: "real \<Rightarrow> bool" where
  "is_double x \<longleftrightarrow> (\<exists>m e :: int. \<bar>m\<bar> < 2 ^ 53 \<and> x = of_int m * pow2 e)"

text \<open>Float addition and subtraction: the exact result, rounded.\<close>

definition fadd :: "real \<Rightarrow> real \<Rightarrow> real" where
  "fadd a b = fl (a + b)"

definition fsub :: "real \<Rightarrow> real \<Rightarrow> real" where
  "fsub a b = fl (a - b)"

text \<open>
  C's \<^verbatim>\<open>fmod\<close>: the remainder of the division truncated towards zero. It has the sign of
  \<open>x\<close> and is exact.
\<close>

definition c_fmod :: "real \<Rightarrow> real \<Rightarrow> real" where
  "c_fmod x m = x - m * of_int (if 0 \<le> x / m then \<lfloor>x / m\<rfloor> else \<lceil>x / m\<rceil>)"

text \<open>
  Python's \<^verbatim>\<open>x % m\<close> on floats, for a modulus that is not zero (the source's is 360):
  \<^verbatim>\<open>fmod(x, m)\<close>, to which \<open>m\<close> is added, with rounding, when it is not zero and its
  sign is not the sign of \<open>m\<close>.
\<close>

definition py_mod :: "real \<Rightarrow> real \<Rightarrow> real" where
  "py_mod x m =
     (let r = c_fmod x m
      in if r \<noteq> 0 then (if (m < 0) \<noteq> (r < 0) then fadd r m else r) else 0)"

definition radians :: "real \<Rightarrow> real" where
  "radians d = d * pi / 180"

definition degrees :: "real \<Rightarrow> real" where
  "degrees r = r * 180 / pi"

text \<open>\<^verbatim>\<open>math.sqrt\<close> raises ValueError on a negative argument.\<close>

definition math_sqrt :: "real \<Rightarrow> py_error + real" where
  "math_sqrt x = (if x < 0 then Inl ValueError else Inr (sqrt x))"

text \<open>\<^verbatim>\<open>math.atan2(y, x)\<close>: the angle of the point \<open>(x, y)\<close>, in \<open>(-pi, pi]\<close>, and 0 at the origin.\<close>

definition atan2 :: "real \<Rightarrow> real \<Rightarrow> real" where
  "atan2 y x =
     (if 0 < x then arctan (y / x)
      else if x < 0 then (if 0 \<le> y then arctan (y / x) + pi else arctan (y / x) - pi)
      else if 0 < y then pi / 2
      else if y < 0 then - (pi / 2)
      else 0)"

subsection \<open>Geometry utilities\<close>

definition TOTAL_ROWS :: int where "TOTAL_ROWS = 12"
definition SIDE_THRESHOLD :: real where "SIDE_THRESHOLD = 30"
definition SAMPLE_INTERVAL_KM :: real where "SAMPLE_INTERVAL_KM = 5"

definition normalize :: "real \<Rightarrow> real" where
  "normalize angle = fsub (py_mod (fadd angle 180) 360) 180"

text \<open>The argument \<open>a\<close> of the two square roots in \<^verbatim>\<open>haversine\<close>.\<close>

definition haversine_a :: "real \<Rightarrow> real \<Rightarrow> real \<Rightarrow> real \<Rightarrow> real" where
  "haversine_a lat1 lon1 lat2 lon2 =
     (let dlat = radians (lat2 - lat1);
          dlon = radians (lon2 - lon1)
      in (sin (dlat / 2))\<^sup>2
         + cos (radians lat1) * cos (radians lat2) * (sin (dlon / 2))\<^sup>2)"

definition haversine :: "real \<Rightarrow> real \<Rightarrow> real \<Rightarrow> real \<Rightarrow> py_error + real" where
  "haversine lat1 lon1 lat2 lon2 =
     (let R = 6371;
          a = haversine_a lat1 lon1 lat2 lon2
      in bind_err (math_sqrt a) (\<lambda>sa.
         bind_err (math_sqrt (1 - a)) (\<lambda>sb.
         Inr (R * 2 * atan2 sa sb))))"

definition calculate_bearing :: "real \<Rightarrow> real \<Rightarrow> real \<Rightarrow> real \<Rightarrow> real" where
  "calculate_bearing lat1 lon1 lat2 lon2 =
     (let la1 = radians lat1; la2 = radians lat2;
          dlon = radians (lon2 - lon1);
          x = sin dlon * cos la2;
          y = cos la1 * sin la2 - sin la1 * cos la2 * cos dlon
      in py_mod (fadd (degrees (atan2 x y)) 360) 360)"

subsection \<open>Exposure engine\<close>

text \<open>
  A route point is a GeoJSON pair \<open>(lon, lat)\<close>. The solar position comes from the
  \<^verbatim>\<open>astral\<close> library: \<^verbatim>\<open>azimuth(observer, t)\<close> and \<^verbatim>\<open>elevation(observer, t)\<close>
  are parameters \<open>az\<close> and \<open>el\<close> of the model, total functions of the observer and the time.
\<close>

type_synonym coord = "real \<times> real"

record observer =
  latitude :: real
  longitude :: real

type_synonym solar = "observer \<Rightarrow> real \<Rightarrow> real"

record exposure =
  front_left :: real
  back_left :: real
  front_right :: real
  back_right :: real

definition zero_exposure :: exposure where
  "zero_exposure = \<lparr>front_left = 0, back_left = 0, front_right = 0, back_right = 0\<rparr>"

definition py_div :: "real \<Rightarrow> real \<Rightarrow> py_error + real" where
  "py_div x y = (if y = 0 then Inl ZeroDivisionError else Inr (x / y))"

text \<open>
  The pairs \<open>(coords[i], coords[i + 1])\<close> for \<open>i\<close> in \<^verbatim>\<open>range(len(coords) - 1)\<close>: both
  loops of \<^verbatim>\<open>compute_exposure\<close> read the route through these pairs only, and every
  index they use is in range.
\<close>

definition segments :: "coord list \<Rightarrow> (coord \<times> coord) list" where
  "segments coords = zip coords (tl coords)"

text \<open>The first loop: \<^verbatim>\<open>segment_distances.append(d); total_distance += d\<close>.\<close>

fun distance_loop ::
  "(coord \<times> coord) list \<Rightarrow> real list \<times> real \<Rightarrow> py_error + (real list \<times> real)" where
  "distance_loop [] st = Inr st"
| "distance_loop (((lon1, lat1), (lon2, lat2)) # rest) (segment_distances, total_distance) =
     bind_err (haversine lat1 lon1 lat2 lon2) (\<lambda>d.
       distance_loop rest (segment_distances @ [d], total_distance + d))"

definition total_distance :: "coord list \<Rightarrow> py_error + real" where
  "total_distance coords =
     bind_err (distance_loop (segments coords) ([], 0)) (\<lambda>(ds, total). Inr total)"

text \<open>
  The body of \<^verbatim>\<open>if sun_el > 0:\<close> on one sample: which accumulator receives
  \<open>sub_time_s / 60\<close> minutes.
\<close>

definition accumulate :: "real \<Rightarrow> real \<Rightarrow> real \<Rightarrow> real \<Rightarrow> exposure \<Rightarrow> exposure" where
  "accumulate sun_az sun_el seg_bearing sub_time_s acc =
     (if sun_el > 0 then
        (let relative = normalize (sun_az - seg_bearing);
             abs_rel = \<bar>relative\<bar>
         in if SIDE_THRESHOLD \<le> abs_rel \<and> abs_rel \<le> 150 then
              (let mins = sub_time_s / 60
               in if relative > 0 then
                    (if abs_rel \<le> 90 then acc\<lparr>front_right := front_right acc + mins\<rparr>
                     else acc\<lparr>back_right := back_right acc + mins\<rparr>)
                  else
                    (if abs_rel \<le> 90 then acc\<lparr>front_left := front_left acc + mins\<rparr>
                     else acc\<lparr>back_left := back_left acc + mins\<rparr>))
            else acc)
      else acc)"

text \<open>
  The loops of \<^verbatim>\<open>compute_exposure\<close>, with what is done on a sample as the
  parameter \<open>step\<close>, applied to the sun's azimuth and elevation at the sample, the
  segment's bearing and the sub-interval's seconds. \<^verbatim>\<open>compute_exposure\<close> itself is the
  instance with \<open>accumulate\<close>.
\<close>

type_synonym 'a step = "real \<Rightarrow> real \<Rightarrow> real \<Rightarrow> real \<Rightarrow> 'a \<Rightarrow> 'a"

definition n_sub_of :: "real \<Rightarrow> int" where
  "n_sub_of seg_dist = max 1 \<lceil>seg_dist / SAMPLE_INTERVAL_KM\<rceil>"

text \<open>One pass of \<^verbatim>\<open>for sub in range(n_sub)\<close>.\<close>

definition sub_step ::
  "'a step \<Rightarrow> solar \<Rightarrow> solar \<Rightarrow> coord \<times> coord \<Rightarrow> real \<Rightarrow> real \<Rightarrow> real \<Rightarrow> int \<Rightarrow> real
     \<Rightarrow> nat \<Rightarrow> 'a \<Rightarrow> 'a" where
  "sub_step step az el seg current_time seg_time_s seg_bearing n_sub sub_time_s sub acc =
     (case seg of ((lon1, lat1), (lon2, lat2)) \<Rightarrow>
        (let frac_mid = (real sub + 0.5) / real_of_int n_sub;
             sub_lat = lat1 + (lat2 - lat1) * frac_mid;
             sub_lon = lon1 + (lon2 - lon1) * frac_mid;
             sub_time = current_time + seg_time_s * frac_mid;
             observer = \<lparr>latitude = sub_lat, longitude = sub_lon\<rparr>;
             sun_az = az observer sub_time;
             sun_el = el observer sub_time
         in step sun_az sun_el seg_bearing sub_time_s acc))"

text \<open>
  One pass of \<^verbatim>\<open>for i, seg_dist in enumerate(segment_distances)\<close>. The division by
  \<open>n_sub\<close> cannot fail, \<open>n_sub\<close> being at least 1; the one by \<open>total_distance\<close> is checked.
\<close>

definition segment_step ::
  "'a step \<Rightarrow> solar \<Rightarrow> solar \<Rightarrow> real \<Rightarrow> real \<Rightarrow> (coord \<times> coord) \<times> real \<Rightarrow> 'a \<times> real
     \<Rightarrow> py_error + ('a \<times> real)" where
  "segment_step step az el total_dist total_duration seg_and_dist st =
     (case (seg_and_dist, st) of ((((lon1, lat1), (lon2, lat2)), seg_dist), (acc, current_time)) \<Rightarrow>
        bind_err (py_div seg_dist total_dist) (\<lambda>q.
          (let seg_time_s = q * total_duration;
               seg_bearing = calculate_bearing lat1 lon1 lat2 lon2;
               n_sub = n_sub_of seg_dist;
               sub_time_s = seg_time_s / real_of_int n_sub;
               acc' = fold (sub_step step az el ((lon1, lat1), (lon2, lat2)) current_time
                              seg_time_s seg_bearing n_sub sub_time_s)
                        [0..<nat n_sub] acc
           in Inr (acc', current_time + seg_time_s))))"

fun exposure_loop ::
  "'a step \<Rightarrow> solar \<Rightarrow> solar \<Rightarrow> real \<Rightarrow> real \<Rightarrow> ((coord \<times> coord) \<times> real) list \<Rightarrow> 'a \<times> real
     \<Rightarrow> py_error + ('a \<times> real)" where
  "exposure_loop step az el total_dist total_duration [] st = Inr st"
| "exposure_loop step az el total_dist total_duration (sd # rest) st =
     bind_err (segment_step step az el total_dist total_duration sd st)
       (exposure_loop step az el total_dist total_duration rest)"

definition route_walk ::
  "'a step \<Rightarrow> 'a \<Rightarrow> solar \<Rightarrow> solar \<Rightarrow> coord list \<Rightarrow> real \<Rightarrow> real \<Rightarrow> py_error + 'a" where
  "route_walk step init az el coords total_duration dt =
     bind_err (distance_loop (segments coords) ([], 0)) (\<lambda>(segment_distances, total_dist).
       if total_dist = 0 then Inr init
       else bind_err (exposure_loop step az el total_dist total_duration
                        (zip (segments coords) segment_distances) (init, dt))
              (\<lambda>(acc, current_time). Inr acc))"

definition compute_exposure :: "solar \<Rightarrow> solar \<Rightarrow> coord list \<Rightarrow> real \<Rightarrow> real \<Rightarrow> py_error + exposure" where
  "compute_exposure az el coords total_duration dt =
     route_walk accumulate zero_exposure az el coords total_duration dt"

text \<open>
  The variant of the tie-break at \<open>relative = 0\<close>: \<open>relative \<ge> 0\<close> selects the right side.
  It differs from \<open>accumulate\<close> in that comparison only.
\<close>

definition accumulate_ge :: "real \<Rightarrow> real \<Rightarrow> real \<Rightarrow> real \<Rightarrow> exposure \<Rightarrow> exposure" where
  "accumulate_ge sun_az sun_el seg_bearing sub_time_s acc =
     (if sun_el > 0 then
        (let relative = normalize (sun_az - seg_bearing);
             abs_rel = \<bar>relative\<bar>
         in if SIDE_THRESHOLD \<le> abs_rel \<and> abs_rel \<le> 150 then
              (let mins = sub_time_s / 60
               in if relative \<ge> 0 then
                    (if abs_rel \<le> 90 then acc\<lparr>front_right := front_right acc + mins\<rparr>
                     else acc\<lparr>back_right := back_right acc + mins\<rparr>)
                  else
                    (if abs_rel \<le> 90 then acc\<lparr>front_left := front_left acc + mins\<rparr>
                     else acc\<lparr>back_left := back_left acc + mins\<rparr>))
            else acc)
      else acc)"

definition compute_exposure_ge :: "solar \<Rightarrow> solar \<Rightarrow> coord list \<Rightarrow> real \<Rightarrow> real \<Rightarrow> py_error + exposure" where
  "compute_exposure_ge az el coords total_duration dt =
     route_walk accumulate_ge zero_exposure az el coords total_duration dt"

subsection \<open>Seat allocator\<close>

text \<open>
  \<^verbatim>\<open>round(x, ndigits)\<close> on a float: the nearest multiple of \<open>10 ^ (- ndigits)\<close>, a tie
  going to the even multiple.
\<close>

definition py_round :: "real \<Rightarrow> nat \<Rightarrow> real" where
  "py_round x ndigits = of_int (round_half_even (x * 10 ^ ndigits)) / 10 ^ ndigits"

text \<open>The decimal text of an integer, as \<^verbatim>\<open>f"{row}"\<close> formats it.\<close>

definition digit_chars :: string where
  "digit_chars = ''0123456789''"

fun str_nat :: "nat \<Rightarrow> string" where
  "str_nat n = (if n < 10 then [digit_chars ! n]
                else str_nat (n div 10) @ [digit_chars ! (n mod 10)])"

declare str_nat.simps [simp del]

definition str_int :: "int \<Rightarrow> string" where
  "str_int i = (if i < 0 then CHR ''-'' # str_nat (nat (- i)) else str_nat (nat i))"

text \<open>
  A seat is a dict: \<open>seat_entry\<close> has the keys set in the row loop, \<open>seat\<close> has the key
  \<^verbatim>\<open>exposure_ratio\<close> as well, set by the second loop.
\<close>

datatype side = LEFT | RIGHT

datatype position = WINDOW | MIDDLE | AISLE

record seat_entry =
  seat_id :: string
  row :: int
  side :: side
  position :: position
  exposure_minutes :: real

record seat = seat_entry +
  exposure_ratio :: real

definition row_seats :: "exposure \<Rightarrow> int \<Rightarrow> int \<Rightarrow> seat_entry list" where
  "row_seats exposure total_rows r =
     (let front_w = real_of_int (total_rows - r) / real_of_int total_rows;
          back_w = real_of_int r / real_of_int total_rows;
          left_base = front_w * front_left exposure + back_w * back_left exposure;
          right_base = front_w * front_right exposure + back_w * back_right exposure
      in [\<lparr>seat_id = ''L'' @ str_int r @ ''A'', row = r, side = LEFT, position = WINDOW,
            exposure_minutes = py_round (left_base * 1.00) 2\<rparr>,
          \<lparr>seat_id = ''L'' @ str_int r @ ''B'', row = r, side = LEFT, position = AISLE,
            exposure_minutes = py_round (left_base * 0.25) 2\<rparr>,
          \<lparr>seat_id = ''R'' @ str_int r @ ''C'', row = r, side = RIGHT, position = WINDOW,
            exposure_minutes = py_round (right_base * 1.00) 2\<rparr>,
          \<lparr>seat_id = ''R'' @ str_int r @ ''B'', row = r, side = RIGHT, position = MIDDLE,
            exposure_minutes = py_round (right_base * 0.40) 2\<rparr>,
          \<lparr>seat_id = ''R'' @ str_int r @ ''A'', row = r, side = RIGHT, position = AISLE,
            exposure_minutes = py_round (right_base * 0.15) 2\<rparr>])"

text \<open>\<^verbatim>\<open>max(xs, default=d)\<close>.\<close>

fun max_default :: "real list \<Rightarrow> real \<Rightarrow> real" where
  "max_default [] d = d"
| "max_default (x # xs) d = fold max xs x"

definition with_ratio :: "real \<Rightarrow> seat_entry \<Rightarrow> seat" where
  "with_ratio max_exp s =
     \<lparr>seat_id = seat_id s, row = row s, side = side s, position = position s,
      exposure_minutes = exposure_minutes s,
      exposure_ratio = (if max_exp > 0 then py_round (exposure_minutes s / max_exp) 3 else 0)\<rparr>"

definition build_seat_list :: "exposure \<Rightarrow> int \<Rightarrow> seat list" where
  "build_seat_list exposure total_rows =
     (let seats = concat (map (row_seats exposure total_rows) [1..total_rows]);
          max_exp = max_default (map exposure_minutes seats) 0
      in map (with_ratio max_exp) seats)"

subsection \<open>Geocoding and routing caches\<close>

text \<open>
  \<^verbatim>\<open>str.strip()\<close> and \<^verbatim>\<open>str.lower()\<close> on ASCII text: the whitespace characters of
  Python below 128, and the letters A to Z.
\<close>

definition whitespace_chars :: "char list" where
  "whitespace_chars =
     [CHR 0x09, CHR 0x0A, CHR 0x0B, CHR 0x0C, CHR 0x0D, CHR 0x1C, CHR 0x1D, CHR 0x1E, CHR 0x1F,
      CHR '' '']"

definition is_space :: "char \<Rightarrow> bool" where
  "is_space c \<longleftrightarrow> c \<in> set whitespace_chars"

definition py_strip :: "string \<Rightarrow> string" where
  "py_strip s = rev (dropWhile is_space (rev (dropWhile is_space s)))"

definition lower_char :: "char \<Rightarrow> char" where
  "lower_char c =
     (case map_of (zip ''ABCDEFGHIJKLMNOPQRSTUVWXYZ'' ''abcdefghijklmnopqrstuvwxyz'') c of
        Some l \<Rightarrow> l
      | None \<Rightarrow> c)"

definition py_lower :: "string \<Rightarrow> string" where
  "py_lower s = map lower_char s"

text \<open>The format \<^verbatim>\<open>{x:.4f}\<close>: sign, integer part, point, four decimals.\<close>

definition format_4f :: "real \<Rightarrow> string" where
  "format_4f x =
     (let n = nat (round_half_even (\<bar>x\<bar> * 10 ^ 4))
      in (if x < 0 then ''-'' else '''') @ str_nat (n div 10000) @ ''.''
         @ [digit_chars ! (n div 1000 mod 10), digit_chars ! (n div 100 mod 10),
            digit_chars ! (n div 10 mod 10), digit_chars ! (n mod 10)])"

text \<open>
  The two lookups are run one after the other on a state that holds both caches and the
  list of HTTP requests sent so far. What the remote service answers is the parameter
  \<open>fetch\<close>: for the geocoder, an exception anywhere in the \<^verbatim>\<open>try\<close> block
  (\<open>Geo_failed\<close>) or the decoded list of results; for the router, an exception
  (\<open>Route_failed\<close>) or the first route's coordinates and duration.
\<close>

datatype request = Geocode_request string | Route_request real real real real

datatype geo_reply = Geo_failed | Geo_results "(real \<times> real) list"

datatype route_reply = Route_failed | Route_ok "coord list" real

record server =
  geocode_cache :: "string \<rightharpoonup> (real \<times> real) option"
  route_cache :: "string \<rightharpoonup> coord list \<times> real"
  sent :: "request list"

definition geocode_key :: "string \<Rightarrow> string" where
  "geocode_key place_name = py_lower (py_strip place_name)"

definition geocode_location ::
  "(string \<Rightarrow> geo_reply) \<Rightarrow> string \<Rightarrow> server \<Rightarrow> (real \<times> real) option \<times> server" where
  "geocode_location fetch place_name st =
     (let key = geocode_key place_name
      in case geocode_cache st key of
           Some cached \<Rightarrow> (cached, st)
         | None \<Rightarrow>
             (let st1 = st\<lparr>sent := sent st @ [Geocode_request place_name]\<rparr>
              in case fetch place_name of
                   Geo_results [] \<Rightarrow>
                     (None, st1\<lparr>geocode_cache := (geocode_cache st1)(key \<mapsto> None)\<rparr>)
                 | Geo_results (result # others) \<Rightarrow>
                     (Some result, st1\<lparr>geocode_cache := (geocode_cache st1)(key \<mapsto> Some result)\<rparr>)
                 | Geo_failed \<Rightarrow>
                     (None, st1\<lparr>geocode_cache := (geocode_cache st1)(key \<mapsto> None)\<rparr>)))"

definition route_key :: "real \<Rightarrow> real \<Rightarrow> real \<Rightarrow> real \<Rightarrow> string" where
  "route_key start_lat start_lon end_lat end_lon =
     format_4f start_lat @ '','' @ format_4f start_lon @ '';''
       @ format_4f end_lat @ '','' @ format_4f end_lon"

definition get_route ::
  "(real \<Rightarrow> real \<Rightarrow> real \<Rightarrow> real \<Rightarrow> route_reply) \<Rightarrow> real \<Rightarrow> real \<Rightarrow> real \<Rightarrow> real \<Rightarrow> server
     \<Rightarrow> (py_error + coord list \<times> real) \<times> server" where
  "get_route fetch start_lat start_lon end_lat end_lon st =
     (let key = route_key start_lat start_lon end_lat end_lon
      in case route_cache st key of
           Some cached \<Rightarrow> (Inr cached, st)
         | None \<Rightarrow>
             (let st1 = st\<lparr>sent := sent st @ [Route_request start_lat start_lon end_lat end_lon]\<rparr>
              in case fetch start_lat start_lon end_lat end_lon of
                   Route_failed \<Rightarrow> (Inl RequestError, st1)
                 | Route_ok coords duration \<Rightarrow>
                     (Inr (coords, duration),
                      st1\<lparr>route_cache := (route_cache st1)(key \<mapsto> (coords, duration))\<rparr>)))"

subsection \<open>Reading a seat list\<close>

text \<open>A seat by its id, the seats of a side, the ids of the seats at ratio 1.\<close>

definition seat_by_id :: "string \<Rightarrow> seat list \<Rightarrow> seat option" where
  "seat_by_id sid seats = find (\<lambda>s. seat_id s = sid) seats"

definition on_side :: "side \<Rightarrow> seat list \<Rightarrow> seat list" where
  "on_side sd seats = filter (\<lambda>s. side s = sd) seats"

definition ids_at_ratio_one :: "seat list \<Rightarrow> string list" where
  "ids_at_ratio_one seats = map seat_id (filter (\<lambda>s. exposure_ratio s = 1) seats)"

definition minutes_of :: "string \<Rightarrow> seat list \<Rightarrow> real option" where
  "minutes_of sid seats = map_option exposure_minutes (seat_by_id sid seats)"

definition ratio_of :: "string \<Rightarrow> seat list \<Rightarrow> real option" where
  "ratio_of sid seats = map_option exposure_ratio (seat_by_id sid seats)"

subsection \<open>Concrete inputs for the examples\<close>

text \<open>
  Solar-position functions that are constant over place and time: the sun due east, at
  45 degrees of elevation.
\<close>

definition east_azimuth :: solar where
  "east_azimuth ob t = 90"

definition high_elevation :: solar where
  "high_elevation ob t = 45"

text \<open>Exposure totals for the seat allocator.\<close>

definition front_left_only :: exposure where
  "front_left_only = \<lparr>front_left = 60, back_left = 0, front_right = 0, back_right = 0\<rparr>"

definition both_fronts :: exposure where
  "both_fronts = \<lparr>front_left = 60, back_left = 0, front_right = 60, back_right = 0\<rparr>"

definition tiny_front_left :: exposure where
  "tiny_front_left = \<lparr>front_left = 0.001, back_left = 0, front_right = 0, back_right = 0\<rparr>"

text \<open>A server with empty caches, a geocoder and a router that fail, a geocoder that finds nothing.\<close>

definition fresh_server :: server where
  "fresh_server = \<lparr>geocode_cache = Map.empty, route_cache = Map.empty, sent = []\<rparr>"

definition geocoder_down :: "string \<Rightarrow> geo_reply" where
  "geocoder_down q = Geo_failed"

definition geocoder_empty :: "string \<Rightarrow> geo_reply" where
  "geocoder_empty q = Geo_results []"

definition router_down :: "real \<Rightarrow> real \<Rightarrow> real \<Rightarrow> real \<Rightarrow> route_reply" where
  "router_down start_lat start_lon end_lat end_lon = Route_failed"

section \<open>Properties\<close>

subsection \<open>Rounding to an integer\<close>

lemma round_half_even_lower: "\<lfloor>y\<rfloor> \<le> round_half_even y"
  by (simp add: round_half_even_def Let_def)

lemma round_half_even_upper: "round_half_even y \<le> \<lceil>y\<rceil>"
proof (cases "y - of_int \<lfloor>y\<rfloor> < 1 / 2")
  case True
  have "\<lfloor>y\<rfloor> \<le> \<lceil>y\<rceil>" by (rule floor_le_ceiling)
  with True show ?thesis by (simp add: round_half_even_def Let_def)
next
  case False
  then have "of_int \<lfloor>y\<rfloor> < y" by simp
  then have "\<lfloor>y\<rfloor> < \<lceil>y\<rceil>" by (simp only: less_ceiling_iff)
  then have "\<lfloor>y\<rfloor> + 1 \<le> \<lceil>y\<rceil>" by simp
  moreover have "round_half_even y \<le> \<lfloor>y\<rfloor> + 1"
    by (simp add: round_half_even_def Let_def)
  ultimately show ?thesis by linarith
qed

lemma round_half_even_of_int [simp]: "round_half_even (of_int k) = k"
  by (simp add: round_half_even_def)

subsection \<open>Rounding to a double\<close>

lemma pow2_pos [simp]: "0 < pow2 e"
  by (simp add: pow2_def)

lemma pow2_nonneg [simp]: "0 \<le> pow2 e"
  by (simp add: pow2_def)

lemma pow2_neq0 [simp]: "pow2 e \<noteq> 0"
  by (simp add: pow2_def)

lemma pow2_add: "pow2 (a + b) = pow2 a * pow2 b"
  by (simp add: pow2_def powr_add)

lemma pow2_diff: "pow2 (a - b) = pow2 a / pow2 b"
  by (simp add: pow2_def powr_diff)

lemma pow2_le_iff [simp]: "pow2 a \<le> pow2 b \<longleftrightarrow> a \<le> b"
  by (simp add: pow2_def)

lemma pow2_less_iff [simp]: "pow2 a < pow2 b \<longleftrightarrow> a < b"
  by (simp add: pow2_def)

lemma pow2_nat: "pow2 (int n) = 2 ^ n"
  by (simp add: pow2_def powr_realpow)

lemma pow2_0 [simp]: "pow2 0 = 1"
  by (simp add: pow2_def)

lemma pow2_int: "0 \<le> e \<Longrightarrow> pow2 e = of_int (2 ^ nat e)"
  using pow2_nat [of "nat e"] by simp

lemma binade_bounds:
  assumes "x \<noteq> 0"
  shows "pow2 (binade x) \<le> \<bar>x\<bar>" and "\<bar>x\<bar> < pow2 (binade x + 1)"
proof -
  have "0 < \<bar>x\<bar>" using assms by simp
  then have "2 powr of_int (binade x) \<le> \<bar>x\<bar> \<and> \<bar>x\<bar> < 2 powr (of_int (binade x) + 1)"
    using floor_log_eq_powr_iff [of "\<bar>x\<bar>" 2 "binade x"] by (simp add: binade_def)
  then show "pow2 (binade x) \<le> \<bar>x\<bar>" and "\<bar>x\<bar> < pow2 (binade x + 1)"
    by (simp_all add: pow2_def)
qed

lemma binade_eq:
  assumes "pow2 k \<le> \<bar>x\<bar>" and "\<bar>x\<bar> < pow2 (k + 1)"
  shows "binade x = k"
proof -
  have "0 < \<bar>x\<bar>" using assms(1) pow2_pos [of k] by linarith
  then show ?thesis
    using floor_log_eq_powr_iff [of "\<bar>x\<bar>" 2 k] assms by (simp add: binade_def pow2_def)
qed

lemma round_half_even_minus: "round_half_even (- y) = - round_half_even y"
proof (cases "y \<in> \<int>")
  case True
  then obtain n where "y = of_int n" by (auto elim: Ints_cases)
  then show ?thesis using round_half_even_of_int [of "- n"] by simp
next
  case False
  then have "y \<noteq> of_int \<lfloor>y\<rfloor>" by (metis Ints_of_int)
  then have c: "\<lceil>y\<rceil> = \<lfloor>y\<rfloor> + 1" by (simp add: ceiling_altdef)
  have f: "\<lfloor>- y\<rfloor> = - \<lfloor>y\<rfloor> - 1" using c by (simp add: floor_minus)
  have fr: "(- y) - of_int \<lfloor>- y\<rfloor> = 1 - (y - of_int \<lfloor>y\<rfloor>)" by (simp add: f)
  show ?thesis
    unfolding round_half_even_def Let_def fr
    by (auto simp: f)
qed

lemma pow2_53: "pow2 53 = 2 ^ 53"
  using pow2_nat [of 53] by simp

lemma pow2_52: "pow2 52 = 2 ^ 52"
  using pow2_nat [of 52] by simp

lemma quantum_pos [simp]: "0 < quantum x"
  by (simp add: quantum_def)

lemma quantum_neq0 [simp]: "quantum x \<noteq> 0"
  by (simp add: quantum_def)

lemma pow2_1 [simp]: "pow2 1 = 2"
  by (simp add: pow2_def)

lemma quantum_minus [simp]: "quantum (- x) = quantum x"
  by (simp add: quantum_def binade_def)

lemma fl_0 [simp]: "fl 0 = 0"
  by (simp add: fl_def)

lemma fl_minus: "fl (- x) = - fl x"
  by (simp add: fl_def round_half_even_minus)

lemma is_double_minus: "is_double (- x) \<longleftrightarrow> is_double x"
proof -
  have "is_double (- y)" if "is_double y" for y
  proof -
    from that obtain m e :: int where "\<bar>m\<bar> < 2 ^ 53" "y = of_int m * pow2 e"
      by (auto simp: is_double_def)
    then have "\<bar>- m\<bar> < 2 ^ 53" "- y = of_int (- m) * pow2 e" by simp_all
    then show ?thesis unfolding is_double_def by blast
  qed
  from this [of x] this [of "- x"] show ?thesis by auto
qed

lemma is_double_of_int: "\<bar>n\<bar> < 2 ^ 53 \<Longrightarrow> is_double (of_int n)"
  unfolding is_double_def by (intro exI [of _ n] exI [of _ 0]) simp

lemma double_grid:
  assumes "is_double x" and "pow2 k \<le> \<bar>x\<bar>"
  shows "\<exists>n :: int. x = of_int n * pow2 (k - 52)"
proof -
  from assms(1) obtain m e :: int where m: "\<bar>m\<bar> < 2 ^ 53" and x: "x = of_int m * pow2 e"
    by (auto simp: is_double_def)
  have "real_of_int \<bar>m\<bar> < 2 ^ 53" using m by (metis of_int_less_numeral_power_cancel_iff)
  then have "\<bar>x\<bar> < 2 ^ 53 * pow2 e"
    by (simp add: x abs_mult)
  then have "pow2 k < pow2 (53 + e)"
    using assms(2) by (simp add: pow2_add pow2_53)
  then have d: "0 \<le> e - (k - 52)" by simp
  have "pow2 e = pow2 (e - (k - 52)) * pow2 (k - 52)"
    by (simp add: pow2_add [symmetric])
  also have "pow2 (e - (k - 52)) = of_int (2 ^ nat (e - (k - 52)))"
    using d by (rule pow2_int)
  finally have "x = of_int (m * 2 ^ nat (e - (k - 52))) * pow2 (k - 52)"
    by (simp add: x)
  then show ?thesis by blast
qed

lemma grid_double:
  assumes "x = of_int n * pow2 g" and "\<bar>x\<bar> < pow2 (g + 53)"
  shows "is_double x"
proof -
  have "real_of_int \<bar>n\<bar> * pow2 g < 2 ^ 53 * pow2 g"
    using assms by (simp add: abs_mult pow2_add pow2_53 mult.commute)
  then have "real_of_int \<bar>n\<bar> < 2 ^ 53" by simp
  then have "\<bar>n\<bar> < 2 ^ 53" by (metis of_int_less_numeral_power_cancel_iff)
  with assms(1) show ?thesis unfolding is_double_def by blast
qed

lemma fl_id:
  assumes "is_double x"
  shows "fl x = x"
proof (cases "x = 0")
  case True
  then show ?thesis by simp
next
  case False
  have "pow2 (binade x) \<le> \<bar>x\<bar>" using False by (rule binade_bounds)
  with assms obtain n :: int where n: "x = of_int n * quantum x"
    unfolding quantum_def using double_grid by blast
  have "x / quantum x = of_int n"
    by (subst n) simp
  then have "round_half_even (x / quantum x) = n" by simp
  then show ?thesis using False n by (simp add: fl_def)
qed

lemma scaled_bounds:
  assumes "x \<noteq> 0"
  shows "2 ^ 52 \<le> \<bar>x / quantum x\<bar>" and "\<bar>x / quantum x\<bar> < 2 ^ 53"
proof -
  have q: "pow2 (binade x) = 2 ^ 52 * quantum x" "pow2 (binade x + 1) = 2 ^ 53 * quantum x"
    by (simp_all add: quantum_def pow2_diff pow2_add pow2_52 pow2_53)
  from binade_bounds [OF assms] have "2 ^ 52 * quantum x \<le> \<bar>x\<bar>" "\<bar>x\<bar> < 2 ^ 53 * quantum x"
    by (simp_all add: q)
  then show "2 ^ 52 \<le> \<bar>x / quantum x\<bar>" and "\<bar>x / quantum x\<bar> < 2 ^ 53"
    by (simp_all add: abs_divide pos_le_divide_eq pos_divide_less_eq)
qed

lemma round_half_even_le_int:
  assumes "y \<le> of_int k"
  shows "round_half_even y \<le> k"
proof -
  from assms have "\<lceil>y\<rceil> \<le> k" by (simp add: ceiling_le_iff)
  with round_half_even_upper [of y] show ?thesis by linarith
qed

lemma round_half_even_ge_int:
  assumes "of_int k \<le> y"
  shows "k \<le> round_half_even y"
proof -
  from assms have "k \<le> \<lfloor>y\<rfloor>" by (simp add: le_floor_iff)
  with round_half_even_lower [of y] show ?thesis by linarith
qed

lemma fl_is_double: "is_double (fl x)"
proof (cases "x = 0")
  case True
  then show ?thesis using is_double_of_int [of 0] by simp
next
  case False
  define n where "n = round_half_even (x / quantum x)"
  have fx: "fl x = of_int n * quantum x" using False by (simp add: fl_def n_def)
  define y where "y = x / quantum x"
  have "\<bar>y\<bar> < 2 ^ 53" unfolding y_def by (rule scaled_bounds(2) [OF False])
  then have "y \<le> 2 ^ 53" "- (2 ^ 53) \<le> y" by linarith+
  then have u: "x / quantum x \<le> of_int (2 ^ 53)"
    and l: "of_int (- (2 ^ 53)) \<le> x / quantum x" by (simp_all add: y_def)
  have "n \<le> 2 ^ 53" unfolding n_def using u by (rule round_half_even_le_int)
  moreover have "- (2 ^ 53) \<le> n" unfolding n_def using l by (rule round_half_even_ge_int)
  ultimately have "n \<le> 2 ^ 53" "- (2 ^ 53) \<le> n" by simp_all
  then consider "\<bar>n\<bar> < 2 ^ 53" | "n = 2 ^ 53" | "n = - (2 ^ 53)" by linarith
  then show ?thesis
  proof cases
    case 1
    then show ?thesis unfolding is_double_def fx quantum_def by blast
  next
    case 2
    have "fl x = of_int 1 * pow2 (binade x + 1)"
      by (simp add: fx 2 quantum_def pow2_diff pow2_add pow2_52)
    moreover have "\<bar>1::int\<bar> < 2 ^ 53" by simp
    ultimately show ?thesis unfolding is_double_def by blast
  next
    case 3
    have "fl x = of_int (- 1) * pow2 (binade x + 1)"
      by (simp add: fx 3 quantum_def pow2_diff pow2_add pow2_52)
    moreover have "\<bar>- 1::int\<bar> < 2 ^ 53" by simp
    ultimately show ?thesis unfolding is_double_def by blast
  qed
qed

lemma fl_le:
  assumes "is_double c" and "x \<le> c"
  shows "fl x \<le> c"
proof (cases "x = 0")
  case True
  with assms(2) show ?thesis by simp
next
  case False
  define q where "q = quantum x"
  define n where "n = round_half_even (x / q)"
  have q: "0 < q" by (simp add: q_def)
  have fx: "fl x = of_int n * q" using False by (simp add: fl_def n_def q_def)
  have E: "pow2 (binade x) = 2 ^ 52 * q" "pow2 (binade x + 1) = 2 ^ 53 * q"
    by (simp_all add: q_def quantum_def pow2_diff pow2_add pow2_52 pow2_53)
  have bd: "2 ^ 52 * q \<le> \<bar>x\<bar>" "\<bar>x\<bar> < 2 ^ 53 * q"
    using binade_bounds [OF False] by (simp_all add: E)
  have grid: "fl x \<le> c" if "2 ^ 52 * q \<le> \<bar>c\<bar>"
  proof -
    from that have "pow2 (binade x) \<le> \<bar>c\<bar>" by (simp add: E)
    with assms(1) obtain k :: int where k: "c = of_int k * q"
      unfolding q_def quantum_def using double_grid by blast
    from assms(2) have "x / q \<le> of_int k" using q by (simp add: k pos_divide_le_eq)
    then have "n \<le> k" unfolding n_def by (rule round_half_even_le_int)
    then have "of_int n * q \<le> of_int k * q" using q by simp
    then show ?thesis by (simp add: fx k)
  qed
  show ?thesis
  proof (cases "0 < x")
    case True
    show ?thesis
    proof (cases "2 ^ 53 * q \<le> c")
      case True
      have "x / q \<le> of_int (2 ^ 53)" using bd(2) \<open>0 < x\<close> q by (simp add: pos_divide_le_eq)
      then have "n \<le> 2 ^ 53" unfolding n_def by (rule round_half_even_le_int)
      then have "of_int n * q \<le> of_int (2 ^ 53) * q" using q by (simp only: mult_le_cancel_right_pos of_int_le_iff)
      with True show ?thesis by (simp add: fx)
    next
      case False
      have "2 ^ 52 * q \<le> \<bar>c\<bar>" using bd(1) \<open>0 < x\<close> assms(2) by simp
      then show ?thesis by (rule grid)
    qed
  next
    case neg: False
    with \<open>x \<noteq> 0\<close> have x: "x < 0" by simp
    show ?thesis
    proof (cases "- (2 ^ 52 * q) \<le> c")
      case True
      have "x / q \<le> of_int (- (2 ^ 52))" using bd(1) x q by (simp add: pos_divide_le_eq)
      then have "n \<le> - (2 ^ 52)" unfolding n_def by (rule round_half_even_le_int)
      then have "of_int n * q \<le> of_int (- (2 ^ 52)) * q"
        using q by (simp only: mult_le_cancel_right_pos of_int_le_iff)
      with True show ?thesis by (simp add: fx)
    next
      case False
      then have "2 ^ 52 * q \<le> \<bar>c\<bar>" by simp
      then show ?thesis by (rule grid)
    qed
  qed
qed

lemma fl_ge:
  assumes "is_double c" and "c \<le> x"
  shows "c \<le> fl x"
proof -
  have "fl (- x) \<le> - c"
    using assms by (intro fl_le) (simp_all add: is_double_minus)
  then show ?thesis by (simp add: fl_minus)
qed

subsection \<open>Angle normalisation\<close>

lemma pow2_numeral [simp]: "pow2 (numeral n) = 2 ^ numeral n"
  unfolding pow2_def of_int_numeral by (rule powr_numeral) simp

lemma pow2_neg_numeral [simp]: "pow2 (- numeral n) = 1 / 2 ^ numeral n"
proof -
  have "pow2 (- numeral n) = 1 / pow2 (numeral n)"
    using pow2_diff [of 0 "numeral n"] by simp
  then show ?thesis by (simp only: pow2_numeral)
qed

lemma is_double_numeral:
  "is_double 0" "is_double 90" "is_double 180" "is_double 360"
  "is_double (- 90)" "is_double (- 180)"
  using is_double_of_int [of 0] is_double_of_int [of 90] is_double_of_int [of 180]
    is_double_of_int [of 360] is_double_of_int [of "- 90"] is_double_of_int [of "- 180"]
  by simp_all

lemma fl_numeral [simp]:
  "fl 90 = 90" "fl 180 = 180" "fl 360 = 360" "fl (- 90) = - 90" "fl (- 180) = - 180"
  by (simp_all add: fl_id is_double_numeral)

lemma c_fmod_nonneg:
  assumes "0 \<le> a"
  shows "0 \<le> c_fmod a 360" and "c_fmod a 360 < 360"
proof -
  have c: "c_fmod a 360 = a - 360 * of_int \<lfloor>a / 360\<rfloor>"
    using assms by (simp add: c_fmod_def)
  have "of_int \<lfloor>a / 360\<rfloor> \<le> a / 360" "a / 360 < of_int \<lfloor>a / 360\<rfloor> + 1"
    by linarith+
  then show "0 \<le> c_fmod a 360" and "c_fmod a 360 < 360"
    unfolding c by linarith+
qed

lemma c_fmod_neg:
  assumes "a < 0"
  shows "- 360 < c_fmod a 360" and "c_fmod a 360 \<le> 0"
proof -
  have c: "c_fmod a 360 = a - 360 * of_int \<lceil>a / 360\<rceil>"
    using assms by (simp add: c_fmod_def)
  have "a / 360 \<le> of_int \<lceil>a / 360\<rceil>" "of_int \<lceil>a / 360\<rceil> - 1 < a / 360"
    by linarith+
  then show "- 360 < c_fmod a 360" and "c_fmod a 360 \<le> 0"
    unfolding c by linarith+
qed

lemma c_fmod_small:
  assumes "\<bar>a\<bar> < 360"
  shows "c_fmod a 360 = a"
proof (cases "0 \<le> a")
  case True
  with assms have "\<lfloor>a / 360\<rfloor> = 0" by (simp add: floor_eq_iff)
  with True show ?thesis by (simp add: c_fmod_def)
next
  case False
  with assms have "\<lceil>a / 360\<rceil> = 0" by (simp add: ceiling_eq_iff)
  with False show ?thesis by (simp add: c_fmod_def)
qed

lemma c_fmod_abs: "\<bar>c_fmod a 360\<bar> < 360"
  using c_fmod_nonneg [of a] c_fmod_neg [of a] by (cases "0 \<le> a") simp_all

lemma c_fmod_is_double:
  assumes "is_double a"
  shows "is_double (c_fmod a 360)"
proof (cases "\<bar>a\<bar> < 360")
  case True
  with assms show ?thesis by (simp add: c_fmod_small)
next
  case False
  then have "pow2 8 \<le> \<bar>a\<bar>" by simp
  with assms obtain n :: int where n: "a = of_int n * pow2 (8 - 52)"
    using double_grid by blast
  define t :: int where "t = (if 0 \<le> a / 360 then \<lfloor>a / 360\<rfloor> else \<lceil>a / 360\<rceil>)"
  have "c_fmod a 360 = a - 360 * of_int t" by (simp add: c_fmod_def t_def)
  also have "\<dots> = of_int (n - 360 * 2 ^ 44 * t) * pow2 (- 44)"
    by (simp add: n field_simps)
  finally have g: "c_fmod a 360 = of_int (n - 360 * 2 ^ 44 * t) * pow2 (- 44)" .
  have "\<bar>c_fmod a 360\<bar> < pow2 (- 44 + 53)"
    using c_fmod_abs [of a] by simp
  with g show ?thesis by (rule grid_double)
qed

lemma py_mod_range: "0 \<le> py_mod a 360" "py_mod a 360 \<le> 360"
proof -
  have "0 \<le> py_mod a 360 \<and> py_mod a 360 \<le> 360"
  proof (cases "0 \<le> a")
    case True
    from c_fmod_nonneg [OF True] show ?thesis
      by (auto simp: py_mod_def Let_def)
  next
    case False
    then have a: "a < 0" by simp
    from c_fmod_neg [OF a] have "0 \<le> c_fmod a 360 + 360" "c_fmod a 360 + 360 \<le> 360"
      by simp_all
    then have "0 \<le> fl (c_fmod a 360 + 360)" "fl (c_fmod a 360 + 360) \<le> 360"
      by (auto intro: fl_ge fl_le is_double_numeral)
    with c_fmod_neg [OF a] show ?thesis
      by (auto simp: py_mod_def Let_def fadd_def)
  qed
  then show "0 \<le> py_mod a 360" "py_mod a 360 \<le> 360" by simp_all
qed

lemma py_mod_is_double:
  assumes "is_double a"
  shows "is_double (py_mod a 360)"
  using c_fmod_is_double [OF assms]
  by (auto simp: py_mod_def Let_def fadd_def fl_is_double is_double_numeral)

lemma py_mod_small:
  assumes "0 \<le> a" and "a < 360"
  shows "py_mod a 360 = a"
proof -
  from assms have "c_fmod a 360 = a" by (intro c_fmod_small) simp
  with assms show ?thesis by (simp add: py_mod_def Let_def)
qed

lemma normalize_range: "- 180 \<le> normalize x \<and> normalize x \<le> 180"
proof -
  define r where "r = py_mod (fadd x 180) 360"
  have "0 \<le> r" "r \<le> 360" unfolding r_def by (rule py_mod_range)+
  then have "- 180 \<le> r - 180" "r - 180 \<le> 180" by simp_all
  then have "- 180 \<le> fl (r - 180)" "fl (r - 180) \<le> 180"
    by (auto intro: fl_ge fl_le is_double_numeral)
  then show ?thesis by (simp add: normalize_def fsub_def r_def)
qed

lemma normalize_180: "normalize 180 = - 180"
  by (simp add: normalize_def fadd_def fsub_def py_mod_def c_fmod_def)

lemma grid_sum_double:
  assumes "is_double u" and "is_double v" and "pow2 k \<le> \<bar>u\<bar>" and "pow2 k \<le> \<bar>v\<bar>"
    and "\<bar>u + v\<bar> < pow2 (k + 1)"
  shows "is_double (u + v)"
proof -
  obtain n :: int where n: "u = of_int n * pow2 (k - 52)"
    using double_grid [OF assms(1,3)] by blast
  obtain n' :: int where n': "v = of_int n' * pow2 (k - 52)"
    using double_grid [OF assms(2,4)] by blast
  have "u + v = of_int (n + n') * pow2 (k - 52)"
    by (simp add: n n' distrib_right)
  moreover have "\<bar>u + v\<bar> < pow2 (k - 52 + 53)"
  proof -
    have "k - 52 + 53 = k + 1" by simp
    then show ?thesis using assms(5) by (simp only:)
  qed
  ultimately show ?thesis by (rule grid_double)
qed

lemma normalize_values:
  "normalize 90 = 90" "normalize 270 = - 90" "normalize 120 = 120"
  "normalize 240 = - 120" "normalize 10 = 10" "normalize 370 = 10"
proof -
  have d: "fl 270 = 270" "fl 450 = 450" "fl 300 = 300" "fl 420 = 420" "fl 190 = 190"
    "fl 550 = 550" "fl 120 = 120" "fl (- 120) = - 120" "fl 10 = 10"
    using is_double_of_int [of 270] is_double_of_int [of 450] is_double_of_int [of 300]
      is_double_of_int [of 420] is_double_of_int [of 190] is_double_of_int [of 550]
      is_double_of_int [of 120] is_double_of_int [of "- 120"] is_double_of_int [of 10]
    by (simp_all add: fl_id)
  show "normalize 90 = 90" "normalize 270 = - 90" "normalize 120 = 120"
    "normalize 240 = - 120" "normalize 10 = 10" "normalize 370 = 10"
    by (simp_all add: normalize_def fadd_def fsub_def py_mod_def c_fmod_def d)
qed

text \<open>\<open>360 - 2 ^ (- 45)\<close> is half way between two doubles; the tie goes to 360.\<close>

lemma fl_tie_below_360: "fl (12666373951979519 / 35184372088832) = 360"
proof -
  have b: "binade (12666373951979519 / 35184372088832) = 8"
    by (rule binade_eq) simp_all
  show ?thesis
    by (simp add: fl_def quantum_def b round_half_even_def)
qed

lemma fl_tiny: "fl (- (1 / 35184372088832)) = - (1 / 35184372088832)"
proof -
  have "\<bar>- 1 :: int\<bar> < 2 ^ 53" by simp
  moreover have "- (1 / 35184372088832) = real_of_int (- 1) * pow2 (- 45)" by simp
  ultimately have "is_double (- (1 / 35184372088832))" unfolding is_double_def by blast
  then show ?thesis by (rule fl_id)
qed

lemma normalize_upper_end: "normalize (- 180 - 1 / 2 ^ 45) = 180"
proof -
  have a: "fadd (- 180 - 1 / 2 ^ 45) 180 = - (1 / 35184372088832)"
    by (simp add: fadd_def fl_tiny)
  have c: "c_fmod (- (1 / 35184372088832)) 360 = - (1 / 35184372088832)"
    by (rule c_fmod_small) simp
  have m: "py_mod (- (1 / 35184372088832)) 360 = 360"
    using fl_tie_below_360 by (simp add: py_mod_def c fadd_def)
  show ?thesis unfolding normalize_def a m by (simp add: fsub_def)
qed

text \<open>
  C5 (as stated, refuted): the claim places \<open>normalize x\<close> in \<open>(-180, 180]\<close>. At
  \<open>x = 180\<close> the source computes \<open>(360.0 % 360) - 180 = -180.0\<close>, which is outside.
\<close>

theorem normalize_open_left_counterexample:
  "normalize 180 = - 180 \<and> \<not> (- 180 < normalize 180 \<and> normalize 180 \<le> 180)"
  by (simp add: normalize_180)

text \<open>
  C5 (amended): for every angle \<open>x\<close>, \<open>normalize x\<close> lies in the closed interval
  \<open>[-180, 180]\<close>, and both ends are reached: \<open>normalize 180 = -180\<close>, and at the double
  next below \<open>-180\<close>, which is \<open>-180 - 2 ^ (- 45)\<close>, the sum \<open>-2 ^ (- 45) + 360\<close> is
  rounded to \<open>360\<close> and \<open>normalize\<close> returns \<open>180\<close>.
\<close>

theorem normalize_in_closed_interval:
  "(- 180 \<le> normalize x \<and> normalize x \<le> 180)
   \<and> normalize 180 = - 180
   \<and> normalize (- 180 - 1 / 2 ^ 45) = 180"
  using normalize_range [of x] normalize_180 normalize_upper_end by simp

text \<open>
  C8 (as stated, refuted): \<open>normalize\<close> is not idempotent at the double next below
  \<open>-180\<close>: there it returns \<open>180\<close>, and \<open>normalize 180\<close> is \<open>-180\<close>.
\<close>

theorem not_idempotent_counterexample:
  "normalize (- 180 - 1 / 2 ^ 45) = 180
   \<and> normalize (normalize (- 180 - 1 / 2 ^ 45)) = - 180
   \<and> normalize (normalize (- 180 - 1 / 2 ^ 45)) \<noteq> normalize (- 180 - 1 / 2 ^ 45)"
  unfolding normalize_upper_end normalize_180 by simp

text \<open>
  C8 (amended): \<open>normalize (normalize x) = normalize x\<close> for every angle \<open>x\<close> whose
  \<open>normalize x\<close> is not \<open>180\<close>.
\<close>

theorem normalize_idempotent_below_180:
  assumes "normalize x \<noteq> 180"
  shows "normalize (normalize x) = normalize x"
proof -
  define r where "r = py_mod (fadd x 180) 360"
  define y where "y = normalize x"
  have y: "y = fl (r - 180)" by (simp add: y_def normalize_def fsub_def r_def)
  have dr: "is_double r"
    unfolding r_def fadd_def by (intro py_mod_is_double fl_is_double)
  have r0: "0 \<le> r" and r360: "r \<le> 360" unfolding r_def by (rule py_mod_range)+
  have "r \<noteq> 360"
  proof
    assume "r = 360"
    then have "y = 180" by (simp add: y)
    with assms show False by (simp add: y_def)
  qed
  with r360 have r_lt: "r < 360" by simp
  have again: "normalize y = y" if "is_double (y + 180)" "0 \<le> y + 180" "y + 180 < 360"
    "is_double y"
  proof -
    have "fadd y 180 = y + 180" using that(1) by (simp add: fadd_def fl_id)
    moreover have "py_mod (y + 180) 360 = y + 180" using that(2,3) by (rule py_mod_small)
    ultimately show ?thesis using that(4) by (simp add: normalize_def fsub_def fl_id)
  qed
  have "normalize y = y"
  proof (cases "90 \<le> r")
    case True
    have ex: "is_double (r + (- 180))"
    proof (cases "r < 128")
      case True
      show ?thesis
        using dr is_double_numeral(6) \<open>90 \<le> r\<close> True
        by (intro grid_sum_double [where k = 6]) simp_all
    next
      case False
      show ?thesis
        using dr is_double_numeral(6) False r_lt
        by (intro grid_sum_double [where k = 7]) simp_all
    qed
    then have yr: "y = r - 180" by (simp add: y fl_id)
    show ?thesis
      using dr r0 r_lt ex by (intro again) (simp_all add: yr)
  next
    case False
    then have "- 180 \<le> r - 180" "r - 180 \<le> - 90" using r0 by simp_all
    then have ylo: "- 180 \<le> y" and yhi: "y \<le> - 90"
      unfolding y by (auto intro: fl_ge fl_le is_double_numeral)
    have dy: "is_double y" unfolding y by (rule fl_is_double)
    have "is_double (y + 180)"
      using dy is_double_numeral(3) ylo yhi
      by (intro grid_sum_double [where k = 6]) simp_all
    then show ?thesis using ylo yhi dy by (intro again) simp_all
  qed
  then show ?thesis by (simp add: y_def)
qed

theorem normalize_idempotent_below_180_witness:
  "normalize 370 \<noteq> 180 \<and> normalize (normalize 370) = normalize 370"
proof -
  have h: "normalize 370 \<noteq> 180" by (simp add: normalize_values)
  from normalize_idempotent_below_180 [OF h] h show ?thesis by simp
qed

subsection \<open>Classification of one sample\<close>



subsection \<open>The tie-break at a relative angle of zero\<close>

lemma accumulate_ge_eq: "accumulate_ge = accumulate"
proof (intro ext)
  fix a e b t acc
  have "normalize (a - b) = 0 \<Longrightarrow> \<not> SIDE_THRESHOLD \<le> \<bar>normalize (a - b)\<bar>"
    by (simp add: SIDE_THRESHOLD_def)
  then show "accumulate_ge a e b t acc = accumulate a e b t acc"
    unfolding accumulate_ge_def accumulate_def Let_def
    by (cases "normalize (a - b) = 0") (auto simp: less_le)
qed

text \<open>
  C10: the tie-break at \<open>relative = 0\<close> is unobservable: the variant of
  \<^verbatim>\<open>compute_exposure\<close> that classifies \<open>relative \<ge> 0\<close> as right returns the same result
  as the implemented function, for every route, duration, departure time and
  solar-position function.
\<close>

theorem tie_break_unobservable:
  "compute_exposure_ge az el coords total_duration dt
     = compute_exposure az el coords total_duration dt"
  by (simp add: compute_exposure_ge_def compute_exposure_def accumulate_ge_eq)

subsection \<open>Degenerate routes\<close>

lemma route_walk_short:
  assumes "length coords < 2"
  shows "route_walk step init az el coords total_duration dt = Inr init"
proof -
  from assms have "segments coords = []"
    by (cases coords) (simp_all add: segments_def)
  then show ?thesis by (simp add: route_walk_def bind_err_def)
qed

text \<open>
  C9: for every polyline with fewer than 2 points (empty, or a single point),
  \<^verbatim>\<open>compute_exposure\<close> returns all four quadrant totals equal to zero, without an error,
  for every duration and departure timestamp.
\<close>

theorem short_polyline_zero:
  "length coords < 2 \<Longrightarrow> compute_exposure az el coords total_duration dt = Inr zero_exposure"
  by (simp add: compute_exposure_def route_walk_short)

theorem short_polyline_zero_witness:
  "length ([] :: coord list) < 2 \<and> length [(77.6, 12.97) :: coord] < 2
   \<and> compute_exposure east_azimuth high_elevation [] 3600 0 = Inr zero_exposure
   \<and> compute_exposure east_azimuth high_elevation [(77.6, 12.97)] 3600 0 = Inr zero_exposure"
  using short_polyline_zero [of "[]" east_azimuth high_elevation 3600 0]
    short_polyline_zero [of "[(77.6, 12.97)]" east_azimuth high_elevation 3600 0]
  by simp





subsection \<open>Seat allocator: rounding and the maximum\<close>

lemma py_round_nonneg:
  assumes "0 \<le> x"
  shows "0 \<le> py_round x n"
proof -
  have "0 \<le> x * 10 ^ n" using assms by simp
  then have "0 \<le> \<lfloor>x * 10 ^ n\<rfloor>" by simp
  with round_half_even_lower [of "x * 10 ^ n"] have "0 \<le> round_half_even (x * 10 ^ n)"
    by linarith
  then show ?thesis by (simp add: py_round_def)
qed

lemma py_round_le_one:
  assumes "x \<le> 1"
  shows "py_round x n \<le> 1"
proof -
  have "x * 10 ^ n \<le> of_int (10 ^ n)" using assms by simp
  then have "\<lceil>x * 10 ^ n\<rceil> \<le> 10 ^ n" by (simp only: ceiling_le_iff)
  with round_half_even_upper [of "x * 10 ^ n"] have "round_half_even (x * 10 ^ n) \<le> 10 ^ n"
    by linarith
  then have "real_of_int (round_half_even (x * 10 ^ n)) \<le> real_of_int (10 ^ n)"
    by (simp only: of_int_le_iff)
  then show ?thesis by (simp add: py_round_def)
qed

lemma py_round_zero: "py_round 0 n = 0"
  using round_half_even_of_int [of 0] by (simp add: py_round_def)

lemma py_round_one: "py_round 1 n = 1"
  using round_half_even_of_int [of "10 ^ n"] by (simp add: py_round_def)

lemma max_default_Max: "xs \<noteq> [] \<Longrightarrow> max_default xs d = Max (set xs)"
proof (cases xs)
  case Nil
  assume "xs \<noteq> []"
  with Nil show ?thesis by simp
next
  case (Cons a list)
  show ?thesis unfolding Cons max_default.simps by (rule Max.set_eq_fold [symmetric])
qed

lemma row_seats_nonneg:
  assumes "0 \<le> front_left e" "0 \<le> back_left e" "0 \<le> front_right e" "0 \<le> back_right e"
    and "1 \<le> r" "r \<le> n" and "s \<in> set (row_seats e n r)"
  shows "0 \<le> exposure_minutes s"
proof -
  define L where "L = real_of_int (n - r) / real_of_int n * front_left e
                        + real_of_int r / real_of_int n * back_left e"
  define R where "R = real_of_int (n - r) / real_of_int n * front_right e
                        + real_of_int r / real_of_int n * back_right e"
  have w: "0 \<le> real_of_int (n - r) / real_of_int n" "0 \<le> real_of_int r / real_of_int n"
    using assms(5,6) by simp_all
  have L: "0 \<le> L"
    unfolding L_def using w assms(1,2) by (intro add_nonneg_nonneg mult_nonneg_nonneg)
  have R: "0 \<le> R"
    unfolding R_def using w assms(3,4) by (intro add_nonneg_nonneg mult_nonneg_nonneg)
  have "exposure_minutes s \<in> {py_round (L * 1.00) 2, py_round (L * 0.25) 2,
          py_round (R * 1.00) 2, py_round (R * 0.40) 2, py_round (R * 0.15) 2}"
    using assms(7) unfolding row_seats_def Let_def L_def R_def by auto
  with L R show ?thesis by (auto intro!: py_round_nonneg)
qed

lemma row_seats_zero:
  assumes "front_left e = 0" "back_left e = 0" "front_right e = 0" "back_right e = 0"
    and "s \<in> set (row_seats e n r)"
  shows "exposure_minutes s = 0"
  using assms by (auto simp: row_seats_def Let_def py_round_zero)

lemma exposure_minutes_with_ratio [simp]:
  "exposure_minutes (with_ratio m s) = exposure_minutes s"
  by (simp add: with_ratio_def)

lemma exposure_ratio_with_ratio:
  "exposure_ratio (with_ratio m s) = (if m > 0 then py_round (exposure_minutes s / m) 3 else 0)"
  by (simp add: with_ratio_def)

subsection \<open>Seat allocator: the end-to-end scenario\<close>

text \<open>
  C2 (as stated, refuted): with totals \<open>front_left = 60\<close> and the other three 0, and 12
  rows, the claim gives seat L1A 60.00 minutes and L1B 15.00. The front weight of row 1 is
  \<open>(12 - 1) / 12\<close>, not 1, so L1A has 55 and L1B has 13.75.
\<close>

theorem row_one_full_front_counterexample:
  "minutes_of ''L1A'' (build_seat_list front_left_only 12) = Some 55
   \<and> minutes_of ''L1A'' (build_seat_list front_left_only 12) \<noteq> Some 60
   \<and> minutes_of ''L1B'' (build_seat_list front_left_only 12) = Some 13.75
   \<and> minutes_of ''L1B'' (build_seat_list front_left_only 12) \<noteq> Some 15"
  by code_simp

text \<open>
  C2 (amended): for totals \<open>front_left = 60\<close>, the other three 0, and \<open>totalRows = 12\<close>,
  \<^verbatim>\<open>build_seat_list\<close> produces seat L1A with \<open>exposure_minutes = 55.00\<close> and L1B with
  13.75 (row 1 has front weight \<open>11/12\<close>), L12A with 0.00, every RIGHT-side seat (36 of
  them) with 0, L1A with \<open>exposure_ratio = 1.0\<close> and L1B with \<open>exposure_ratio = 0.25\<close>.
\<close>

theorem front_left_scenario:
  "minutes_of ''L1A'' (build_seat_list front_left_only 12) = Some 55
   \<and> minutes_of ''L1B'' (build_seat_list front_left_only 12) = Some 13.75
   \<and> minutes_of ''L12A'' (build_seat_list front_left_only 12) = Some 0
   \<and> map exposure_minutes (on_side RIGHT (build_seat_list front_left_only 12)) = replicate 36 0
   \<and> ratio_of ''L1A'' (build_seat_list front_left_only 12) = Some 1
   \<and> ratio_of ''L1B'' (build_seat_list front_left_only 12) = Some 0.25"
  by code_simp

subsection \<open>Seat allocator: exposure ratios\<close>

text \<open>
  C6 (as stated, refuted): the claim has exactly one seat at ratio 1.0 whenever not all
  totals are zero. With \<open>front_left = front_right = 60\<close> the two window seats of row 1
  tie at the maximum and both have ratio 1; with \<open>front_left = 0.001\<close> every seat's
  minutes round to 0.00 and no seat has ratio 1.
\<close>

theorem unique_maximum_counterexample:
  "ids_at_ratio_one (build_seat_list both_fronts 12) = [''L1A'', ''R1C'']
   \<and> ids_at_ratio_one (build_seat_list tiny_front_left 12) = []"
  by code_simp

text \<open>
  C6 (amended): for any exposure totals with all four quadrant values non-negative, and
  any number of rows, \<^verbatim>\<open>build_seat_list\<close> assigns every seat an \<open>exposure_ratio\<close> in
  \<open>[0, 1]\<close>; when some seat has positive (rounded) \<open>exposure_minutes\<close>, at least one seat
  has ratio 1.0; when all totals are zero, every seat's ratio is 0.0.
\<close>

theorem seat_ratios:
  assumes "0 \<le> front_left e" "0 \<le> back_left e" "0 \<le> front_right e" "0 \<le> back_right e"
  shows "(\<forall>s\<in>set (build_seat_list e n). 0 \<le> exposure_ratio s \<and> exposure_ratio s \<le> 1)
       \<and> ((\<exists>s\<in>set (build_seat_list e n). 0 < exposure_minutes s)
            \<longrightarrow> (\<exists>s\<in>set (build_seat_list e n). exposure_ratio s = 1))
       \<and> (front_left e = 0 \<and> back_left e = 0 \<and> front_right e = 0 \<and> back_right e = 0
            \<longrightarrow> (\<forall>s\<in>set (build_seat_list e n). exposure_ratio s = 0))"
proof -
  define seats where "seats = concat (map (row_seats e n) [1..n])"
  define m where "m = max_default (map exposure_minutes seats) 0"
  have bsl: "build_seat_list e n = map (with_ratio m) seats"
    by (simp add: build_seat_list_def Let_def seats_def m_def)
  have nonneg: "0 \<le> exposure_minutes s" if "s \<in> set seats" for s
    using that assms unfolding seats_def by (auto intro: row_seats_nonneg)
  have le_m: "exposure_minutes s \<le> m" if "s \<in> set seats" for s
  proof -
    from that have ne: "map exposure_minutes seats \<noteq> []" by auto
    from that show ?thesis
      unfolding m_def max_default_Max [OF ne] by (intro Max_ge) simp_all
  qed
  have m_in: "\<exists>s\<in>set seats. exposure_minutes s = m" if "seats \<noteq> []"
  proof -
    from that have ne: "map exposure_minutes seats \<noteq> []" by simp
    have "Max (set (map exposure_minutes seats)) \<in> set (map exposure_minutes seats)"
      using ne by (intro Max_in) simp_all
    then show ?thesis unfolding m_def max_default_Max [OF ne] by auto
  qed
  have range: "0 \<le> exposure_ratio (with_ratio m s) \<and> exposure_ratio (with_ratio m s) \<le> 1"
    if "s \<in> set seats" for s
  proof (cases "m > 0")
    case True
    have "0 \<le> exposure_minutes s / m" using nonneg [OF that] True by simp
    moreover have "exposure_minutes s / m \<le> 1" using le_m [OF that] True by simp
    ultimately show ?thesis
      using True by (simp add: exposure_ratio_with_ratio py_round_nonneg py_round_le_one)
  next
    case False
    then show ?thesis by (simp add: exposure_ratio_with_ratio)
  qed
  have one: "\<exists>s\<in>set seats. exposure_ratio (with_ratio m s) = 1"
    if "s0 \<in> set seats" "0 < exposure_minutes s0" for s0
  proof -
    from that le_m have m: "0 < m" by fastforce
    from that(1) have "seats \<noteq> []" by auto
    then obtain s where s: "s \<in> set seats" "exposure_minutes s = m" using m_in by blast
    then have "exposure_ratio (with_ratio m s) = 1"
      using m by (simp add: exposure_ratio_with_ratio py_round_one)
    with s(1) show ?thesis by blast
  qed
  have zero: "exposure_ratio (with_ratio m s) = 0"
    if "front_left e = 0 \<and> back_left e = 0 \<and> front_right e = 0 \<and> back_right e = 0"
      "s \<in> set seats" for s
  proof -
    from that have "exposure_minutes s = 0"
      unfolding seats_def by (auto intro: row_seats_zero)
    then show ?thesis by (simp add: exposure_ratio_with_ratio py_round_zero)
  qed
  show ?thesis
    unfolding bsl using range one zero by (auto simp: image_iff)
qed

theorem seat_ratios_witness:
  "0 \<le> front_left front_left_only \<and> 0 \<le> back_left front_left_only
   \<and> 0 \<le> front_right front_left_only \<and> 0 \<le> back_right front_left_only
   \<and> list_all (\<lambda>s. 0 \<le> exposure_ratio s \<and> exposure_ratio s \<le> 1)
        (build_seat_list front_left_only 12)
   \<and> list_ex (\<lambda>s. 0 < exposure_minutes s) (build_seat_list front_left_only 12)
   \<and> list_ex (\<lambda>s. exposure_ratio s = 1) (build_seat_list front_left_only 12)
   \<and> list_all (\<lambda>s. exposure_ratio s = 0) (build_seat_list zero_exposure 12)"
proof -
  have h: "0 \<le> front_left front_left_only" "0 \<le> back_left front_left_only"
    "0 \<le> front_right front_left_only" "0 \<le> back_right front_left_only"
    by (simp_all add: front_left_only_def)
  have z: "0 \<le> front_left zero_exposure" "0 \<le> back_left zero_exposure"
    "0 \<le> front_right zero_exposure" "0 \<le> back_right zero_exposure"
    "front_left zero_exposure = 0 \<and> back_left zero_exposure = 0
       \<and> front_right zero_exposure = 0 \<and> back_right zero_exposure = 0"
    by (simp_all add: zero_exposure_def)
  have p: "list_ex (\<lambda>s. 0 < exposure_minutes s) (build_seat_list front_left_only 12)"
    by code_simp
  from seat_ratios [OF h, of 12] seat_ratios [OF z(1-4), of 12] h z(5) p
  show ?thesis by (simp add: list_all_iff list_ex_iff)
qed

subsection \<open>Negative results in the caches\<close>

lemma geocode_key_example: "geocode_key ''  ATLANTIS '' = geocode_key ''Atlantis''"
  by (simp add: geocode_key_def py_lower_def py_strip_def is_space_def lower_char_def
      whitespace_chars_def)

lemma geocode_location_miss_negative:
  assumes "geocode_cache st (geocode_key name) = None"
    and "fetch name = Geo_failed \<or> fetch name = Geo_results []"
  shows "geocode_location fetch name st
     = (None, st\<lparr>sent := sent st @ [Geocode_request name],
                  geocode_cache := (geocode_cache st)(geocode_key name \<mapsto> None)\<rparr>)"
  using assms by (auto simp: geocode_location_def Let_def)

lemma geocode_location_hit:
  assumes "geocode_cache st (geocode_key name) = Some cached"
  shows "geocode_location fetch name st = (cached, st)"
  using assms by (simp add: geocode_location_def Let_def)

lemma get_route_miss_failed:
  assumes "route_cache st (route_key a b c d) = None" and "fetch a b c d = Route_failed"
  shows "get_route fetch a b c d st
     = (Inl RequestError, st\<lparr>sent := sent st @ [Route_request a b c d]\<rparr>)"
  using assms by (simp add: get_route_def Let_def)

lemma get_route_miss_sent:
  assumes "route_cache st (route_key a b c d) = None"
  shows "sent (snd (get_route fetch a b c d st)) = sent st @ [Route_request a b c d]"
  using assms by (simp add: get_route_def Let_def split: route_reply.splits)

text \<open>
  C7 (as stated, refuted): the claim has the route cache hold a negative entry after a
  failed route lookup. \<^verbatim>\<open>get_route\<close> lets the exception through and stores nothing:
  on a fresh server with the router down, the cache has no entry for the key afterwards,
  and the repeated lookup sends the same request again.
\<close>

theorem router_failure_not_cached_counterexample:
  "fst (get_route router_down 12.9716 77.5946 13.0827 80.2707 fresh_server) = Inl RequestError
   \<and> route_cache (snd (get_route router_down 12.9716 77.5946 13.0827 80.2707 fresh_server))
        (route_key 12.9716 77.5946 13.0827 80.2707) = None
   \<and> sent (snd (get_route router_down 12.9716 77.5946 13.0827 80.2707
              (snd (get_route router_down 12.9716 77.5946 13.0827 80.2707 fresh_server))))
       = [Route_request 12.9716 77.5946 13.0827 80.2707,
          Route_request 12.9716 77.5946 13.0827 80.2707]"
proof -
  have r: "router_down 12.9716 77.5946 13.0827 80.2707 = Route_failed"
    by (simp add: router_down_def)
  have c0: "route_cache fresh_server (route_key 12.9716 77.5946 13.0827 80.2707) = None"
    by (simp add: fresh_server_def)
  have g1: "get_route router_down 12.9716 77.5946 13.0827 80.2707 fresh_server
      = (Inl RequestError,
         fresh_server\<lparr>sent := sent fresh_server @ [Route_request 12.9716 77.5946 13.0827 80.2707]\<rparr>)"
    by (rule get_route_miss_failed [where fetch = router_down and a = "12.9716"
          and b = "77.5946" and c = "13.0827" and d = "80.2707", OF c0 r])
  have c1: "route_cache
      (fresh_server\<lparr>sent := sent fresh_server @ [Route_request 12.9716 77.5946 13.0827 80.2707]\<rparr>)
      (route_key 12.9716 77.5946 13.0827 80.2707) = None"
    by (simp add: fresh_server_def)
  show ?thesis
    unfolding g1 fst_conv snd_conv
      get_route_miss_failed [where fetch = router_down and a = "12.9716" and b = "77.5946"
        and c = "13.0827" and d = "80.2707", OF c1 r]
    by (simp add: fresh_server_def)
qed

text \<open>
  C7 (amended): the geocode cache records negative results: after a geocoding lookup
  that misses the cache and fails or finds nothing, the cache holds a negative entry
  under the normalized key, and a repeated lookup of any name with the same key returns
  the negative result without sending a request. The route cache records successes only:
  a route lookup that fails raises, leaves the route cache as it was, and a repeated
  lookup with the same key sends the request again.
\<close>

theorem negative_results_cached:
  assumes "geocode_cache st (geocode_key name) = None"
    and "fetch name = Geo_failed \<or> fetch name = Geo_results []"
    and "geocode_key name' = geocode_key name"
    and "route_cache st (route_key a b c d) = None"
    and "rfetch a b c d = Route_failed"
  shows "fst (geocode_location fetch name st) = None
       \<and> geocode_cache (snd (geocode_location fetch name st)) (geocode_key name) = Some None
       \<and> geocode_location fetch' name' (snd (geocode_location fetch name st))
           = (None, snd (geocode_location fetch name st))
       \<and> fst (get_route rfetch a b c d st) = Inl RequestError
       \<and> route_cache (snd (get_route rfetch a b c d st)) = route_cache st
       \<and> sent (snd (get_route rfetch' a b c d (snd (get_route rfetch a b c d st))))
           = sent st @ [Route_request a b c d, Route_request a b c d]"
proof -
  define st1 where "st1 = st\<lparr>sent := sent st @ [Geocode_request name],
                  geocode_cache := (geocode_cache st)(geocode_key name \<mapsto> None)\<rparr>"
  have g: "geocode_location fetch name st = (None, st1)"
    unfolding st1_def using assms(1,2) by (rule geocode_location_miss_negative)
  have c: "geocode_cache st1 (geocode_key name') = Some None"
    by (simp add: st1_def assms(3))
  have g2: "geocode_location fetch' name' st1 = (None, st1)"
    using c by (rule geocode_location_hit)
  define st2 where "st2 = st\<lparr>sent := sent st @ [Route_request a b c d]\<rparr>"
  have r: "get_route rfetch a b c d st = (Inl RequestError, st2)"
    unfolding st2_def using assms(4,5) by (rule get_route_miss_failed)
  have c2: "route_cache st2 (route_key a b c d) = None"
    by (simp add: st2_def assms(4))
  have r2: "sent (snd (get_route rfetch' a b c d st2)) = sent st2 @ [Route_request a b c d]"
    using c2 by (rule get_route_miss_sent)
  show ?thesis
    unfolding g r fst_conv snd_conv g2 r2
    by (simp add: st1_def st2_def)
qed

theorem negative_results_cached_witness:
  "geocode_cache fresh_server (geocode_key ''Atlantis'') = None
   \<and> geocode_key ''  ATLANTIS '' = geocode_key ''Atlantis''
   \<and> fst (geocode_location geocoder_down ''Atlantis'' fresh_server) = None
   \<and> geocode_cache (snd (geocode_location geocoder_down ''Atlantis'' fresh_server))
        (geocode_key ''Atlantis'') = Some None
   \<and> geocode_location geocoder_empty ''  ATLANTIS ''
        (snd (geocode_location geocoder_down ''Atlantis'' fresh_server))
       = (None, snd (geocode_location geocoder_down ''Atlantis'' fresh_server))
   \<and> fst (get_route router_down 12.9716 77.5946 13.0827 80.2707 fresh_server)
       = Inl RequestError"
proof -
  have h1: "geocode_cache fresh_server (geocode_key ''Atlantis'') = None"
    by (simp add: fresh_server_def)
  have h2: "geocoder_down ''Atlantis'' = Geo_failed \<or> geocoder_down ''Atlantis'' = Geo_results []"
    by (simp add: geocoder_down_def)
  have h4: "route_cache fresh_server (route_key 12.9716 77.5946 13.0827 80.2707) = None"
    by (simp add: fresh_server_def)
  have h5: "router_down 12.9716 77.5946 13.0827 80.2707 = Route_failed"
    by (simp add: router_down_def)
  from negative_results_cached [where fetch = geocoder_down and name = "''Atlantis''"
      and name' = "''  ATLANTIS ''" and st = fresh_server and rfetch = router_down
      and a = "12.9716" and b = "77.5946" and c = "13.0827"
      and d = "80.2707" and fetch' = geocoder_empty, OF h1 h2 geocode_key_example h4 h5]
    h1 geocode_key_example
  show ?thesis by simp
qed

end
